theory Spec2Isabelle
  imports Complex_Main
begin

section \<open>Python values and errors\<close>

text \<open>
  The three scripts (\<^verbatim>\<open>fal_model.py\<close>, \<^verbatim>\<open>frf_model.py\<close>, \<^verbatim>\<open>adult_lr_model.py\<close>) are Python.
  An exception is a value \<open>Inl e\<close> of the sum type \<open>error + 'a\<close>. Finite Python floats are
  modelled by real numbers (exact arithmetic, no rounding and no overflow); the non-finite
  floats appear only where the source tests for them, in the predicted probabilities.
\<close>

datatype error = ValueError | TypeError | KeyError | ZeroDivisionError | NanMean

datatype pyfloat = Fin real | PInf | NInf | NaN

fun isfinite :: "pyfloat \<Rightarrow> bool" where
  "isfinite (Fin x) = True"
| "isfinite PInf = False"
| "isfinite NInf = False"
| "isfinite NaN = False"

fun the_fin :: "pyfloat \<Rightarrow> real" where
  "the_fin (Fin x) = x"
| "the_fin PInf = 0"
| "the_fin NInf = 0"
| "the_fin NaN = 0"

section \<open>Selecting the best trial\<close>

text \<open>
  \<^verbatim>\<open>np.argmin\<close> on a one-dimensional sequence: the index of the first occurrence of the
  minimum; on an empty sequence it raises \<^verbatim>\<open>ValueError\<close>. \<open>argmin_from b bi i xs\<close> scans
  the rest \<open>xs\<close> of the sequence, \<open>b\<close> being the least value seen so far, \<open>bi\<close> its
  index and \<open>i\<close> the index of the head of \<open>xs\<close>.
\<close>

fun argmin_from :: "real \<Rightarrow> nat \<Rightarrow> nat \<Rightarrow> real list \<Rightarrow> nat" where
  "argmin_from b bi i [] = bi"
| "argmin_from b bi i (x # xs) =
     (if x < b then argmin_from x i (Suc i) xs else argmin_from b bi (Suc i) xs)"

definition np_argmin :: "real list \<Rightarrow> error + nat" where
  "np_argmin xs = (case xs of [] \<Rightarrow> Inl ValueError | x # rest \<Rightarrow> Inr (argmin_from x 0 1 rest))"

text \<open>
  A trial of the hyperopt trial log, as far as \<^verbatim>\<open>best_model\<close> reads it: the dictionary
  \<^verbatim>\<open>trial['result']\<close> with its keys \<^verbatim>\<open>loss\<close>, \<^verbatim>\<open>status\<close> and \<^verbatim>\<open>trained_model\<close>. The log is
  the list of trials in insertion order, which is the order in which \<^verbatim>\<open>for trial in trials\<close>
  visits them.
\<close>

datatype status = STATUS_NEW | STATUS_RUNNING | STATUS_SUSPENDED | STATUS_OK | STATUS_FAIL

record 'm result =
  loss :: real
  status :: status
  trained_model :: 'm

record 'm trial =
  result :: "'m result"

definition valid_trial_list :: "'m trial list \<Rightarrow> 'm trial list" where
  "valid_trial_list trials = filter (\<lambda>t. STATUS_OK = status (result t)) trials"

definition best_model :: "'m trial list \<Rightarrow> error + 'm" where
  "best_model trials =
     (let valid = valid_trial_list trials;
          losses = map (\<lambda>t. loss (result t)) valid
      in case np_argmin losses of
           Inl e \<Rightarrow> Inl e
         | Inr index_having_minimum_loss \<Rightarrow>
             Inr (trained_model (result (valid ! index_having_minimum_loss))))"

section \<open>The Clamper\<close>

text \<open>
  A categorical table (a pandas DataFrame of strings) is the list of its columns in column
  order, each with its name; a column is the list of its cells. \<^verbatim>\<open>Series.value_counts()\<close>
  gives the distinct values of a column with their numbers of occurrences, the most
  frequent first. The model lists equally frequent values in the order of their first
  occurrence; no property below depends on the order among equally frequent values.
\<close>

type_synonym column = "string list"
type_synonym table = "(string \<times> column) list"

fun distinct_values :: "string list \<Rightarrow> string list" where
  "distinct_values [] = []"
| "distinct_values (v # vs) = v # filter (\<lambda>w. w \<noteq> v) (distinct_values vs)"

definition value_counts :: "column \<Rightarrow> (string \<times> nat) list" where
  "value_counts col =
     sort_key (\<lambda>(v, c). - int c) (map (\<lambda>v. (v, count_list col v)) (distinct_values col))"

text \<open>
  \<^verbatim>\<open>Clamper._get_values_to_keep_from_value_counts\<close>. \<^verbatim>\<open>1/len(values)\<close> raises
  \<^verbatim>\<open>ZeroDivisionError\<close> when there is no value. \<^verbatim>\<open>counts / sum(counts)\<close> is a numpy division:
  when all counts are zero every quotient is nan and \<^verbatim>\<open>np.argmin\<close> returns 0 (a case that
  \<^verbatim>\<open>value_counts\<close> never produces, its counts being positive).
\<close>

definition get_values_to_keep_from_value_counts :: "(string \<times> nat) list \<Rightarrow> error + string list" where
  "get_values_to_keep_from_value_counts vc =
     (let values = map fst vc;
          counts = map (\<lambda>(v, c). real c) vc;
          total = sum_list counts;
          count_p = map (\<lambda>c. c / total) counts
      in if length values = 0 then Inl ZeroDivisionError
         else if total = 0 then Inr (take 0 values)
         else
           let min_p_increase = 1 / real (length values)
           in case np_argmin (map (\<lambda>p. \<bar>p - min_p_increase\<bar>) count_p) of
                Inl e \<Rightarrow> Inl e
              | Inr index_to_keep \<Rightarrow> Inr (take index_to_keep values))"

text \<open>
  The object state of a \<^verbatim>\<open>Clamper\<close>: the flag \<^verbatim>\<open>is_fit\<close> and the dictionary
  \<^verbatim>\<open>values_to_keep\<close> from column names to the retained values. A method returns its result
  (or the exception) together with the state it leaves behind.
\<close>

record clamper =
  is_fit :: bool
  values_to_keep :: "string \<rightharpoonup> string list"

definition Clamper_init :: clamper where
  "Clamper_init = \<lparr>is_fit = False, values_to_keep = Map.empty\<rparr>"

text \<open>
  \<^verbatim>\<open>transformed_X[column].loc[~(transformed_X[column].isin(keep))] = "other"\<close>: every cell
  that is not among the retained values becomes the string \<^verbatim>\<open>other\<close> (the assignment is
  modelled as writing through to the copied table).
\<close>

definition clamp_column :: "string list \<Rightarrow> column \<Rightarrow> column" where
  "clamp_column keep col = map (\<lambda>v. if v \<in> set keep then v else ''other'') col"

fun fit_transform_columns :: "clamper \<Rightarrow> table \<Rightarrow> (error + table) \<times> clamper" where
  "fit_transform_columns c [] = (Inr [], c)"
| "fit_transform_columns c ((name, col) # rest) =
     (case get_values_to_keep_from_value_counts (value_counts col) of
        Inl e \<Rightarrow> (Inl e, c)
      | Inr keep \<Rightarrow>
          (case fit_transform_columns (c\<lparr>values_to_keep := (values_to_keep c)(name \<mapsto> keep)\<rparr>) rest of
             (Inl e, c') \<Rightarrow> (Inl e, c')
           | (Inr rest', c') \<Rightarrow> (Inr ((name, clamp_column keep col) # rest'), c')))"

definition Clamper_fit_transform :: "clamper \<Rightarrow> table \<Rightarrow> (error + table) \<times> clamper" where
  "Clamper_fit_transform c X =
     (case fit_transform_columns c X of
        (Inl e, c') \<Rightarrow> (Inl e, c')
      | (Inr transformed_X, c') \<Rightarrow> (Inr transformed_X, c'\<lparr>is_fit := True\<rparr>))"

fun fit_columns :: "clamper \<Rightarrow> table \<Rightarrow> (error + unit) \<times> clamper" where
  "fit_columns c [] = (Inr (), c)"
| "fit_columns c ((name, col) # rest) =
     (case get_values_to_keep_from_value_counts (value_counts col) of
        Inl e \<Rightarrow> (Inl e, c)
      | Inr keep \<Rightarrow> fit_columns (c\<lparr>values_to_keep := (values_to_keep c)(name \<mapsto> keep)\<rparr>) rest)"

definition Clamper_fit :: "clamper \<Rightarrow> table \<Rightarrow> (error + unit) \<times> clamper" where
  "Clamper_fit c X =
     (case fit_columns c X of
        (Inl e, c') \<Rightarrow> (Inl e, c')
      | (Inr u, c') \<Rightarrow> (Inr u, c'\<lparr>is_fit := True\<rparr>))"

text \<open>
  \<^verbatim>\<open>Clamper.transform\<close> reads \<^verbatim>\<open>self.values_to_keep[column]\<close>, which raises \<^verbatim>\<open>KeyError\<close> for
  a column that was not fitted; it does not change the object.
\<close>

fun Clamper_transform :: "clamper \<Rightarrow> table \<Rightarrow> error + table" where
  "Clamper_transform c [] = Inr []"
| "Clamper_transform c ((name, col) # rest) =
     (case values_to_keep c name of
        None \<Rightarrow> Inl KeyError
      | Some keep \<Rightarrow>
          (case Clamper_transform c rest of
             Inl e \<Rightarrow> Inl e
           | Inr rest' \<Rightarrow> Inr ((name, clamp_column keep col) # rest')))"




section \<open>The area under the ROC curve\<close>

text \<open>
  \<^verbatim>\<open>sklearn.metrics.roc_auc_score\<close> is a library function. For binary labels its value is
  the probability that a positive example is scored above a negative one, a tie counting
  one half (the glossary's definition of AUC): the number of such pairs over the number
  of all positive-negative pairs. It raises \<^verbatim>\<open>ValueError\<close> when the two arguments differ in
  length, when a score is nan or infinite, and when only one class is present among the
  labels.
\<close>

definition pair_credit :: "real \<Rightarrow> real \<Rightarrow> real" where
  "pair_credit p n = (if n < p then 1 else if p = n then 1 / 2 else 0)"

definition auc_value :: "bool list \<Rightarrow> real list \<Rightarrow> real" where
  "auc_value y_true y_score =
     (let pos = map snd (filter fst (zip y_true y_score));
          neg = map snd (filter (\<lambda>yp. \<not> fst yp) (zip y_true y_score))
      in (\<Sum>p\<leftarrow>pos. \<Sum>n\<leftarrow>neg. pair_credit p n) / real (length pos * length neg))"

definition roc_auc_score :: "bool list \<Rightarrow> pyfloat list \<Rightarrow> error + real" where
  "roc_auc_score y_true y_score =
     (if length y_true \<noteq> length y_score then Inl ValueError
      else if \<exists>x\<in>set y_score. \<not> isfinite x then Inl ValueError
      else if True \<in> set y_true \<and> False \<in> set y_true
      then Inr (auc_value y_true (map the_fin y_score))
      else Inl ValueError)"

section \<open>Strong demographic parity\<close>

text \<open>
  The argument \<^verbatim>\<open>s\<close> after \<^verbatim>\<open>np.array(s)\<close>: a one-dimensional array, or a two-dimensional
  array given by the list of its columns (\<^verbatim>\<open>s[:, j]\<close> is the \<open>j\<close>-th column and
  \<^verbatim>\<open>s.shape[1]\<close> their number). \<^verbatim>\<open>s.reshape(-1,1)\<close> makes a one-dimensional array the single
  column of a two-dimensional one. \<^verbatim>\<open>np.unique\<close> gives the sorted distinct values.
\<close>

datatype 'a ndarray = Arr1 "'a list" | Arr2 "'a list list"

fun columns_of :: "'a ndarray \<Rightarrow> 'a list list" where
  "columns_of (Arr1 xs) = [xs]"
| "columns_of (Arr2 cols) = cols"

definition np_unique :: "('a::linorder) list \<Rightarrow> 'a list" where
  "np_unique xs = sort (remdups xs)"

text \<open>
  The inner loop over the distinct values of one column, \<open>sens_auc\<close> being the running
  maximum; an exception of \<^verbatim>\<open>roc_auc_score\<close> ends it.
\<close>

fun sens_auc_loop :: "real \<Rightarrow> 'a list \<Rightarrow> 'a list \<Rightarrow> pyfloat list \<Rightarrow> error + real" where
  "sens_auc_loop sens_auc [] col y_prob = Inr sens_auc"
| "sens_auc_loop sens_auc (s_unique # rest) col y_prob =
     (case roc_auc_score (map (\<lambda>v. v = s_unique) col) y_prob of
        Inl e \<Rightarrow> Inl e
      | Inr auc \<Rightarrow> sens_auc_loop (max sens_auc (max (1 - auc) auc)) rest col y_prob)"

fun sensitive_aucs_loop :: "('a::linorder) list list \<Rightarrow> pyfloat list \<Rightarrow> error + real list" where
  "sensitive_aucs_loop [] y_prob = Inr []"
| "sensitive_aucs_loop (col # cols) y_prob =
     (case (if length (np_unique col) = 1 then Inr 1
            else sens_auc_loop 0 (np_unique col) col y_prob) of
        Inl e \<Rightarrow> Inl e
      | Inr a \<Rightarrow>
          (case sensitive_aucs_loop cols y_prob of
             Inl e \<Rightarrow> Inl e
           | Inr rest \<Rightarrow> Inr (a # rest)))"

text \<open>
  The value of \<^verbatim>\<open>s_auc\<close> is a number or a Python list of numbers, and the last line
  \<^verbatim>\<open>abs(2*s_auc-1)\<close> applies Python's operators to it: an integer times a list repeats the
  list, and a list minus an integer, like the absolute value of a list, raises
  \<^verbatim>\<open>TypeError\<close>.
\<close>

datatype pyval = Num real | PyList "real list"

fun py_int_times :: "nat \<Rightarrow> pyval \<Rightarrow> pyval" where
  "py_int_times k (Num x) = Num (real k * x)"
| "py_int_times k (PyList xs) = PyList (concat (replicate k xs))"

fun py_minus_int :: "pyval \<Rightarrow> int \<Rightarrow> error + pyval" where
  "py_minus_int (Num x) k = Inr (Num (x - real_of_int k))"
| "py_minus_int (PyList xs) k = Inl TypeError"

fun py_abs :: "pyval \<Rightarrow> error + pyval" where
  "py_abs (Num x) = Inr (Num \<bar>x\<bar>)"
| "py_abs (PyList xs) = Inl TypeError"

definition strong_demographic_parity_score :: "('a::linorder) ndarray \<Rightarrow> pyfloat list \<Rightarrow> error + pyval" where
  "strong_demographic_parity_score s y_prob =
     (case sensitive_aucs_loop (columns_of s) y_prob of
        Inl e \<Rightarrow> Inl e
      | Inr sensitive_aucs \<Rightarrow>
          (let s_auc = (if length sensitive_aucs = 1 then Num (sensitive_aucs ! 0)
                        else PyList sensitive_aucs)
           in case py_minus_int (py_int_times 2 s_auc) 1 of
                Inl e \<Rightarrow> Inl e
              | Inr d \<Rightarrow> py_abs d))"

text \<open>
  What the specification describes for several protected columns, for comparison: the
  transform \<open>|2s - 1|\<close> applied to each per-column score.
\<close>

definition spec_sdp_sequence :: "real list \<Rightarrow> real list" where
  "spec_sdp_sequence sensitive_aucs = map (\<lambda>a. \<bar>2 * a - 1\<bar>) sensitive_aucs"

section \<open>The numeric sub-pipeline\<close>















section \<open>The cross-validated objective evaluator\<close>

text \<open>
  A DataFrame or Series is the list of its rows in order, each with its index label.
  \<^verbatim>\<open>X[X.index.isin(idx)]\<close> keeps the rows whose \<^emph>\<open>label\<close> occurs in \<open>idx\<close>.
\<close>

type_synonym 'a frame = "(nat \<times> 'a) list"

definition isin :: "'a frame \<Rightarrow> nat list \<Rightarrow> 'a frame" where
  "isin X idx = filter (\<lambda>row. fst row \<in> set idx) X"

text \<open>
  The collaborators outside the repository, as parameters:
  \<^item> \<open>splitter_split cv keys\<close> stands for
    \<^verbatim>\<open>StratifiedKFold(n_splits=cv, shuffle=True, random_state=42).split(X, splitter_y)\<close>, where
    \<open>keys\<close> are the stratification keys of the rows of \<open>X\<close> in order (label and protected
    value); it yields the folds as pairs of lists of row \<^emph>\<open>positions\<close> \<open>0..n-1\<close>;
  \<^item> \<open>fit_predict_proba model X_train y_train X_test\<close> stands for the preprocessing
    (\<^verbatim>\<open>ct.fit_transform\<close>, \<^verbatim>\<open>ct.transform\<close>), the construction and fitting of the classifier and
    \<^verbatim>\<open>predict_proba(X_test).T[1]\<close>;
  \<^item> \<open>sensitive_col\<close> reads the protected attribute of a row, \<^verbatim>\<open>X[sensitive_col]\<close>.
  The label and the protected attribute are binary.
\<close>

type_synonym fold = "nat list \<times> nat list"

record ('m, 'r) collaborators =
  splitter_split :: "nat \<Rightarrow> (bool \<times> bool) list \<Rightarrow> error + fold list"
  fit_predict_proba :: "'m \<Rightarrow> 'r frame \<Rightarrow> bool frame \<Rightarrow> 'r frame \<Rightarrow> error + pyfloat list"
  sensitive_col :: "'r \<Rightarrow> bool"

text \<open>
  The contract of the splitter: in every fold the train and test positions are disjoint
  and together are the positions \<open>0..n-1\<close>.
\<close>

definition partitions_positions :: "nat \<Rightarrow> fold \<Rightarrow> bool" where
  "partitions_positions n train_test =
     (set (fst train_test) \<inter> set (snd train_test) = {} \<and> set (fst train_test) \<union> set (snd train_test) = {0..<n})"

text \<open>
  \<^verbatim>\<open>np.nanmean\<close> of the list of fold scores. The scores are finite, so the mean is their
  arithmetic mean; for an empty list numpy returns nan, which the model, having no nan
  score, reports as \<open>Inl NanMean\<close> (the splitter yields at least two folds, so the case does
  not arise in the scripts).
\<close>

definition nanmean :: "real list \<Rightarrow> error + real" where
  "nanmean xs = (if xs = [] then Inl NanMean else Inr (sum_list xs / real (length xs)))"

fun folds_loop :: "('acc \<Rightarrow> fold \<Rightarrow> error + 'acc) \<Rightarrow> 'acc \<Rightarrow> fold list \<Rightarrow> error + 'acc" where
  "folds_loop body acc [] = Inr acc"
| "folds_loop body acc (f # fs) =
     (case body acc f of Inl e \<Rightarrow> Inl e | Inr acc' \<Rightarrow> folds_loop body acc' fs)"

text \<open>The body of the loop over the folds in \<^verbatim>\<open>fal_model.py\<close>.\<close>

definition fold_body_fal ::
  "('m, 'r) collaborators \<Rightarrow> 'm \<Rightarrow> 'r frame \<Rightarrow> bool frame \<Rightarrow> real list \<times> real list \<Rightarrow> fold
     \<Rightarrow> error + real list \<times> real list" where
  "fold_body_fal C params X y acc train_test =
     (let trainset = fst train_test; testset = snd train_test;
          auc_perf_list = fst acc; auc_fair_list = snd acc;
          X_train = isin X trainset; y_train = isin y trainset;
          X_test = isin X testset; y_test = isin y testset;
          s_test = map (\<lambda>row. sensitive_col C (snd row)) X_test
      in case fit_predict_proba C params X_train y_train X_test of
           Inl e \<Rightarrow> Inl e
         | Inr y_pred_probs \<Rightarrow>
             if False \<in> set (map isfinite y_pred_probs)
             then Inr (auc_perf_list @ [1 / 2], auc_fair_list @ [1 / 2])
             else (case roc_auc_score (map snd y_test) y_pred_probs of
                     Inl e \<Rightarrow> Inl e
                   | Inr a \<Rightarrow>
                       (case roc_auc_score s_test y_pred_probs of
                          Inl e \<Rightarrow> Inl e
                        | Inr b \<Rightarrow>
                            Inr (auc_perf_list @ [a], auc_fair_list @ [1 / 2 + \<bar>1 / 2 - b\<bar>]))))"

definition cross_val_score_custom_fal ::
  "('m, 'r) collaborators \<Rightarrow> 'm \<Rightarrow> 'r frame \<Rightarrow> bool frame \<Rightarrow> nat \<Rightarrow> error + real \<times> real" where
  "cross_val_score_custom_fal C params X y cv =
     (let s = map (\<lambda>row. sensitive_col C (snd row)) X;
          splitter_y = zip (map snd y) s
      in case splitter_split C cv splitter_y of
           Inl e \<Rightarrow> Inl e
         | Inr folds \<Rightarrow>
             (case folds_loop (fold_body_fal C params X y) ([], []) folds of
                Inl e \<Rightarrow> Inl e
              | Inr score_lists \<Rightarrow>
                  (case nanmean (fst score_lists) of
                     Inl e \<Rightarrow> Inl e
                   | Inr auc_perf \<Rightarrow>
                       (case nanmean (snd score_lists) of
                          Inl e \<Rightarrow> Inl e
                        | Inr auc_fair \<Rightarrow> Inr (auc_perf, auc_fair)))))"

text \<open>
  The body of the loop in \<^verbatim>\<open>frf_model.py\<close>: one list of scores, and no test of the
  predicted probabilities before \<^verbatim>\<open>roc_auc_score\<close>.
\<close>

definition fold_body_frf ::
  "('m, 'r) collaborators \<Rightarrow> 'm \<Rightarrow> 'r frame \<Rightarrow> bool frame \<Rightarrow> real list \<Rightarrow> fold \<Rightarrow> error + real list" where
  "fold_body_frf C model X y auc_list train_test =
     (let trainset = fst train_test; testset = snd train_test;
          X_train = isin X trainset; y_train = isin y trainset;
          X_test = isin X testset; y_test = isin y testset
      in case fit_predict_proba C model X_train y_train X_test of
           Inl e \<Rightarrow> Inl e
         | Inr y_pred_probs \<Rightarrow>
             (case roc_auc_score (map snd y_test) y_pred_probs of
                Inl e \<Rightarrow> Inl e
              | Inr a \<Rightarrow> Inr (auc_list @ [a])))"

definition cross_val_score_custom_frf ::
  "('m, 'r) collaborators \<Rightarrow> 'm \<Rightarrow> 'r frame \<Rightarrow> bool frame \<Rightarrow> nat \<Rightarrow> error + real" where
  "cross_val_score_custom_frf C model X y cv =
     (let s = map (\<lambda>row. sensitive_col C (snd row)) X;
          splitter_y = zip (map snd y) s
      in case splitter_split C cv splitter_y of
           Inl e \<Rightarrow> Inl e
         | Inr folds \<Rightarrow>
             (case folds_loop (fold_body_frf C model X y) [] folds of
                Inl e \<Rightarrow> Inl e
              | Inr auc_list \<Rightarrow> nanmean auc_list))"

text \<open>
  The body of the loop in \<^verbatim>\<open>adult_lr_model.py\<close>: the protected attribute is the separate
  Series \<open>s\<close>, and there is no test of the predicted probabilities either.
\<close>

definition fold_body_lr ::
  "('m, 'r) collaborators \<Rightarrow> 'm \<Rightarrow> 'r frame \<Rightarrow> bool frame \<Rightarrow> bool frame \<Rightarrow> real list \<times> real list \<Rightarrow> fold
     \<Rightarrow> error + real list \<times> real list" where
  "fold_body_lr C model X y s acc train_test =
     (let trainset = fst train_test; testset = snd train_test;
          auc_perf_list = fst acc; auc_fair_list = snd acc;
          X_train_df = isin X trainset; y_train_df = isin y trainset;
          X_test_df = isin X testset; y_test_df = isin y testset;
          s_test = map snd (isin s testset)
      in case fit_predict_proba C model X_train_df y_train_df X_test_df of
           Inl e \<Rightarrow> Inl e
         | Inr y_pred_probs \<Rightarrow>
             (case roc_auc_score (map snd y_test_df) y_pred_probs of
                Inl e \<Rightarrow> Inl e
              | Inr a \<Rightarrow>
                  (case roc_auc_score s_test y_pred_probs of
                     Inl e \<Rightarrow> Inl e
                   | Inr b \<Rightarrow>
                       Inr (auc_perf_list @ [a], auc_fair_list @ [1 / 2 + \<bar>1 / 2 - b\<bar>]))))"

definition cross_val_score_custom_lr ::
  "('m, 'r) collaborators \<Rightarrow> 'm \<Rightarrow> 'r frame \<Rightarrow> bool frame \<Rightarrow> bool frame \<Rightarrow> nat \<Rightarrow> error + real \<times> real" where
  "cross_val_score_custom_lr C model X y s cv =
     (let splitter_y = zip (map snd y) (map snd s)
      in case splitter_split C cv splitter_y of
           Inl e \<Rightarrow> Inl e
         | Inr folds \<Rightarrow>
             (case folds_loop (fold_body_lr C model X y s) ([], []) folds of
                Inl e \<Rightarrow> Inl e
              | Inr score_lists \<Rightarrow>
                  (case nanmean (fst score_lists) of
                     Inl e \<Rightarrow> Inl e
                   | Inr auc_perf \<Rightarrow>
                       (case nanmean (snd score_lists) of
                          Inl e \<Rightarrow> Inl e
                        | Inr auc_fair \<Rightarrow> Inr (auc_perf, auc_fair)))))"

section \<open>The search objective\<close>

text \<open>
  \<^verbatim>\<open>objective\<close> reads module-level variables that the outer loop sets for the current outer
  fold: the training partition \<^verbatim>\<open>X_train_df\<close>, \<^verbatim>\<open>y_train_df\<close> (and \<^verbatim>\<open>s_train\<close> in
  \<^verbatim>\<open>adult_lr_model.py\<close>) and the weight \<^verbatim>\<open>theta\<close>. They are the fields of \<open>globals\<close>. The
  number of folds is \<^verbatim>\<open>K = 10\<close>. \<open>build\<close> stands for the constructor call that builds the
  classifier from the proposed parameters.
\<close>

record 'r globals =
  X_train_df :: "'r frame"
  y_train_df :: "bool frame"
  s_train :: "bool frame"
  theta :: real

definition K :: nat where
  "K = 10"

definition objective_fal :: "('p, 'r) collaborators \<Rightarrow> 'r globals \<Rightarrow> 'p \<Rightarrow> error + 'p result" where
  "objective_fal C g params =
     (case cross_val_score_custom_fal C params (X_train_df g) (y_train_df g) 10 of
        Inl e \<Rightarrow> Inl e
      | Inr scores \<Rightarrow>
          (let roc_auc_y = fst scores; roc_auc_s = snd scores;
               goal = (1 - theta g) * roc_auc_y - theta g * roc_auc_s
           in Inr \<lparr>loss = - goal, status = STATUS_OK, trained_model = params\<rparr>))"

definition objective_lr ::
  "('m, 'r) collaborators \<Rightarrow> ('p \<Rightarrow> 'm) \<Rightarrow> 'r globals \<Rightarrow> 'p \<Rightarrow> error + 'm result" where
  "objective_lr C build g params =
     (let model = build params
      in case cross_val_score_custom_lr C model (X_train_df g) (y_train_df g) (s_train g) K of
           Inl e \<Rightarrow> Inl e
         | Inr scores \<Rightarrow>
             (let roc_auc_y = fst scores; roc_auc_s = snd scores;
                  goal = (1 - theta g) * roc_auc_y - theta g * roc_auc_s
              in Inr \<lparr>loss = - goal, status = STATUS_OK, trained_model = model\<rparr>))"

definition objective_frf ::
  "('m, 'r) collaborators \<Rightarrow> ('p \<Rightarrow> 'm) \<Rightarrow> 'r globals \<Rightarrow> 'p \<Rightarrow> error + 'm result" where
  "objective_frf C build g params =
     (let model = build params
      in case cross_val_score_custom_frf C model (X_train_df g) (y_train_df g) K of
           Inl e \<Rightarrow> Inl e
         | Inr roc_auc \<Rightarrow> Inr \<lparr>loss = - roc_auc, status = STATUS_OK, trained_model = model\<rparr>)"

text \<open>The objective in the words of the specification.\<close>

definition spec_loss :: "real \<Rightarrow> real \<Rightarrow> real \<Rightarrow> real" where
  "spec_loss th performance fairness = - ((1 - th) * performance - th * fairness)"

section \<open>Example data\<close>

text \<open>
  A training partition of twenty rows with index labels \<open>0..19\<close>; a row is its feature and
  its protected value, the label equals the protected value. The stub splitter returns
  ten stratified folds (each test fold holds one row of either class), the stub classifier
  predicts the feature of each test row. \<open>nan_collaborators\<close> predicts a nan instead.
  \<open>inner_X_example\<close> is a training partition of twenty rows as the outer loop leaves it,
  with the labels of an outer table of twenty-two rows (rows 1 and 4 went to the outer
  test fold).
\<close>

definition example_X :: "(real \<times> bool) frame" where
  "example_X = map (\<lambda>i. (i, (if even i then 9 / 10 else 1 / 10, even i))) [0..<20]"

definition example_y :: "bool frame" where
  "example_y = map (\<lambda>i. (i, even i)) [0..<20]"

definition example_folds :: "fold list" where
  "example_folds =
     map (\<lambda>k. (filter (\<lambda>i. i \<noteq> 2 * k \<and> i \<noteq> 2 * k + 1) [0..<20], [2 * k, 2 * k + 1])) [0..<10]"

definition example_collaborators :: "(real, real \<times> bool) collaborators" where
  "example_collaborators =
     \<lparr>splitter_split =
        (\<lambda>cv keys. if cv = 10 \<and> length keys = 20 then Inr example_folds else Inl ValueError),
      fit_predict_proba =
        (\<lambda>model X_train y_train X_test. Inr (map (\<lambda>row. Fin (fst (snd row))) X_test)),
      sensitive_col = snd\<rparr>"

definition nan_collaborators :: "(real, real \<times> bool) collaborators" where
  "nan_collaborators =
     \<lparr>splitter_split =
        (\<lambda>cv keys. if cv = 10 \<and> length keys = 20 then Inr example_folds else Inl ValueError),
      fit_predict_proba = (\<lambda>model X_train y_train X_test. Inr [Fin (1 / 2), NaN]),
      sensitive_col = snd\<rparr>"

definition example_globals :: "(real \<times> bool) globals" where
  "example_globals =
     \<lparr>X_train_df = example_X, y_train_df = example_y, s_train = example_y, theta = 1 / 2\<rparr>"

definition inner_X_example :: "(real \<times> bool) frame" where
  "inner_X_example =
     map (\<lambda>l. (l, (if even l then 9 / 10 else 1 / 10, even l)))
       (filter (\<lambda>l. l \<noteq> 1 \<and> l \<noteq> 4) [0..<22])"



definition example_column :: column where
  "example_column =
     [''tanker'', ''tanker'', ''tanker'', ''tanker'', ''tanker'', ''tanker'',
      ''bulk'', ''bulk'', ''bulk'', ''bulk'', ''bulk'',
      ''cargo'', ''cargo'', ''cargo'', ''cargo'',
      ''tug'', ''ferry'', ''dredger'']"

section \<open>Properties of the selection\<close>

lemma argmin_from_spec:
  assumes "i = length pre" "bi < i" "pre ! bi = b"
    and "\<forall>j<i. b \<le> pre ! j" "\<forall>j<bi. b < pre ! j"
  shows "argmin_from b bi i xs < length (pre @ xs)
       \<and> (\<forall>j<length (pre @ xs). (pre @ xs) ! argmin_from b bi i xs \<le> (pre @ xs) ! j)
       \<and> (\<forall>j<argmin_from b bi i xs. (pre @ xs) ! argmin_from b bi i xs < (pre @ xs) ! j)"
  using assms
proof (induction xs arbitrary: pre b bi i)
  case Nil
  then show ?case by simp
next
  case (Cons x xs)
  let ?pre = "pre @ [x]"
  show ?case
  proof (cases "x < b")
    case True
    have a1: "Suc i = length ?pre" using Cons.prems(1) by simp
    have a2: "i < Suc i" by simp
    have a3: "?pre ! i = x" using Cons.prems(1) by simp
    have a4: "\<forall>j<Suc i. x \<le> ?pre ! j"
    proof (intro allI impI)
      fix j assume "j < Suc i"
      then consider "j < i" | "j = i" by linarith
      then show "x \<le> ?pre ! j"
      proof cases
        case 1
        then have "b \<le> pre ! j" using Cons.prems(4) by blast
        then show ?thesis using True 1 Cons.prems(1) by (simp add: nth_append)
      next
        case 2
        then show ?thesis using a3 by simp
      qed
    qed
    have a5: "\<forall>j<i. x < ?pre ! j"
    proof (intro allI impI)
      fix j assume j: "j < i"
      then have "b \<le> pre ! j" using Cons.prems(4) by blast
      then show "x < ?pre ! j" using True j Cons.prems(1) by (simp add: nth_append)
    qed
    from Cons.IH[OF a1 a2 a3 a4 a5] True show ?thesis by simp
  next
    case False
    have a1: "Suc i = length ?pre" using Cons.prems(1) by simp
    have a2: "bi < Suc i" using Cons.prems(2) by simp
    have a3: "?pre ! bi = b" using Cons.prems(1,2,3) by (simp add: nth_append)
    have a4: "\<forall>j<Suc i. b \<le> ?pre ! j"
    proof (intro allI impI)
      fix j assume "j < Suc i"
      then consider "j < i" | "j = i" by linarith
      then show "b \<le> ?pre ! j"
      proof cases
        case 1
        then show ?thesis using Cons.prems(1,4) by (simp add: nth_append)
      next
        case 2
        then show ?thesis using False Cons.prems(1) by simp
      qed
    qed
    have a5: "\<forall>j<bi. b < ?pre ! j"
    proof (intro allI impI)
      fix j assume j: "j < bi"
      then have "b < pre ! j" using Cons.prems(5) by blast
      then show "b < ?pre ! j" using j Cons.prems(1,2) by (simp add: nth_append)
    qed
    from Cons.IH[OF a1 a2 a3 a4 a5] False show ?thesis by simp
  qed
qed

lemma np_argmin_first_minimum:
  assumes "xs \<noteq> []"
  shows "\<exists>k. np_argmin xs = Inr k \<and> k < length xs
           \<and> (\<forall>j<length xs. xs ! k \<le> xs ! j) \<and> (\<forall>j<k. xs ! k < xs ! j)"
proof -
  from assms obtain x rest where xs: "xs = x # rest" by (cases xs) auto
  have "argmin_from x 0 1 rest < length ([x] @ rest)
       \<and> (\<forall>j<length ([x] @ rest). ([x] @ rest) ! argmin_from x 0 1 rest \<le> ([x] @ rest) ! j)
       \<and> (\<forall>j<argmin_from x 0 1 rest. ([x] @ rest) ! argmin_from x 0 1 rest < ([x] @ rest) ! j)"
    by (rule argmin_from_spec) simp_all
  then show ?thesis by (simp add: xs np_argmin_def)
qed

lemma np_argmin_empty: "np_argmin [] = Inl ValueError"
  by (simp add: np_argmin_def)

text \<open>
  The \<open>k\<close>-th element of a filtered list sits at some index \<open>i\<close> of the list, and
  every element before \<open>i\<close> that passes the filter is one of the first \<open>k\<close> elements of
  the filtered list.
\<close>

lemma filter_nth_index:
  "k < length (filter P xs) \<Longrightarrow>
     \<exists>i<length xs. xs ! i = filter P xs ! k
        \<and> (\<forall>j<i. P (xs ! j) \<longrightarrow> (\<exists>k'<k. filter P xs ! k' = xs ! j))"
proof (induction xs arbitrary: k)
  case Nil
  then show ?case by simp
next
  case (Cons x xs)
  show ?case
  proof (cases "P x")
    case False
    with Cons.prems have "k < length (filter P xs)" by simp
    from Cons.IH[OF this] obtain i where i: "i < length xs" "xs ! i = filter P xs ! k"
      "\<forall>j<i. P (xs ! j) \<longrightarrow> (\<exists>k'<k. filter P xs ! k' = xs ! j)" by blast
    have "\<forall>j<Suc i. P ((x # xs) ! j) \<longrightarrow> (\<exists>k'<k. filter P (x # xs) ! k' = (x # xs) ! j)"
    proof (intro allI impI)
      fix j assume j: "j < Suc i" and pj: "P ((x # xs) ! j)"
      show "\<exists>k'<k. filter P (x # xs) ! k' = (x # xs) ! j"
      proof (cases j)
        case 0
        with pj False show ?thesis by simp
      next
        case (Suc j0)
        with j pj i(3) False show ?thesis by simp
      qed
    qed
    with i(1,2) False show ?thesis
      by (intro exI[of _ "Suc i"]) simp
  next
    case True
    show ?thesis
    proof (cases k)
      case 0
      with True show ?thesis by (intro exI[of _ 0]) simp
    next
      case (Suc k0)
      with Cons.prems True have "k0 < length (filter P xs)" by simp
      from Cons.IH[OF this] obtain i where i: "i < length xs" "xs ! i = filter P xs ! k0"
        "\<forall>j<i. P (xs ! j) \<longrightarrow> (\<exists>k'<k0. filter P xs ! k' = xs ! j)" by blast
      have "\<forall>j<Suc i. P ((x # xs) ! j) \<longrightarrow> (\<exists>k'<k. filter P (x # xs) ! k' = (x # xs) ! j)"
      proof (intro allI impI)
        fix j assume j: "j < Suc i" and pj: "P ((x # xs) ! j)"
        show "\<exists>k'<k. filter P (x # xs) ! k' = (x # xs) ! j"
        proof (cases j)
          case 0
          with True Suc show ?thesis by (intro exI[of _ 0]) simp
        next
          case (Suc j0)
          with j pj i(3) obtain k' where "k' < k0" "filter P xs ! k' = xs ! j0" by auto
          with True Suc \<open>k = Suc k0\<close> show ?thesis by (intro exI[of _ "Suc k'"]) simp
        qed
      qed
      with i(1,2) True Suc show ?thesis
        by (intro exI[of _ "Suc i"]) simp
    qed
  qed
qed

text \<open>
  Claim C2. Whenever the trial log holds at least one trial whose status is
  \<^verbatim>\<open>STATUS_OK\<close>, \<^verbatim>\<open>best_model\<close> returns (the \<^verbatim>\<open>trained_model\<close> entry of) a trial of the log
  at some index \<open>i\<close> such that: the trial is successful; its loss is at most the loss of
  every successful trial; and every successful trial inserted before it has a strictly
  larger loss (the earliest trial wins a tie). In particular, for three successful trials
  with losses 0.3, -0.1, 0.5 the trial at index 1 is selected.
\<close>

theorem best_model_first_minimal_success:
  assumes "\<exists>t\<in>set trials. status (result t) = STATUS_OK"
  shows "(\<exists>i<length trials.
            best_model trials = Inr (trained_model (result (trials ! i)))
          \<and> status (result (trials ! i)) = STATUS_OK
          \<and> (\<forall>j<length trials. status (result (trials ! j)) = STATUS_OK
                 \<longrightarrow> loss (result (trials ! i)) \<le> loss (result (trials ! j)))
          \<and> (\<forall>j<i. status (result (trials ! j)) = STATUS_OK
                 \<longrightarrow> loss (result (trials ! i)) < loss (result (trials ! j))))
       \<and> best_model
            [\<lparr>result = \<lparr>loss = 3 / 10, status = STATUS_OK, trained_model = m0\<rparr>\<rparr>,
             \<lparr>result = \<lparr>loss = - 1 / 10, status = STATUS_OK, trained_model = m1\<rparr>\<rparr>,
             \<lparr>result = \<lparr>loss = 5 / 10, status = STATUS_OK, trained_model = m2\<rparr>\<rparr>]
           = Inr m1"
proof
  let ?P = "\<lambda>t. STATUS_OK = status (result t)"
  let ?valid = "filter ?P trials"
  let ?losses = "map (\<lambda>t. loss (result t)) ?valid"
  from assms obtain t0 where "t0 \<in> set trials" "?P t0" by auto
  then have "?valid \<noteq> []" unfolding filter_empty_conv by blast
  then have ne: "?losses \<noteq> []" by simp
  from np_argmin_first_minimum[OF ne] obtain k where k:
    "np_argmin ?losses = Inr k" "k < length ?valid"
    "\<forall>j<length ?valid. ?losses ! k \<le> ?losses ! j" "\<forall>j<k. ?losses ! k < ?losses ! j"
    by auto
  from filter_nth_index[OF k(2)] obtain i where i: "i < length trials"
    "trials ! i = ?valid ! k"
    "\<forall>j<i. ?P (trials ! j) \<longrightarrow> (\<exists>k'<k. ?valid ! k' = trials ! j)" by blast
  have sel: "best_model trials = Inr (trained_model (result (trials ! i)))"
    using k(1) i(2) by (simp add: best_model_def valid_trial_list_def)
  have "?valid ! k \<in> set ?valid" using k(2) by (rule nth_mem)
  then have ok: "status (result (trials ! i)) = STATUS_OK" using i(2) by auto
  have le: "\<forall>j<length trials. status (result (trials ! j)) = STATUS_OK
               \<longrightarrow> loss (result (trials ! i)) \<le> loss (result (trials ! j))"
  proof (intro allI impI)
    fix j assume j: "j < length trials" and s: "status (result (trials ! j)) = STATUS_OK"
    then have "trials ! j \<in> set ?valid" by simp
    then obtain k' where k': "k' < length ?valid" "?valid ! k' = trials ! j"
      unfolding in_set_conv_nth by blast
    from k(3) k'(1) have "?losses ! k \<le> ?losses ! k'" by blast
    with k(2) k' i(2) show "loss (result (trials ! i)) \<le> loss (result (trials ! j))" by simp
  qed
  have lt: "\<forall>j<i. status (result (trials ! j)) = STATUS_OK
               \<longrightarrow> loss (result (trials ! i)) < loss (result (trials ! j))"
  proof (intro allI impI)
    fix j assume j: "j < i" and s: "status (result (trials ! j)) = STATUS_OK"
    with i(3) obtain k' where k': "k' < k" "?valid ! k' = trials ! j" by auto
    from k(4) k'(1) have "?losses ! k \<le> ?losses ! k' \<and> ?losses ! k < ?losses ! k'" by auto
    with k(2) k' i(2) show "loss (result (trials ! i)) < loss (result (trials ! j))" by simp
  qed
  from i(1) sel ok le lt
  show "\<exists>i<length trials.
            best_model trials = Inr (trained_model (result (trials ! i)))
          \<and> status (result (trials ! i)) = STATUS_OK
          \<and> (\<forall>j<length trials. status (result (trials ! j)) = STATUS_OK
                 \<longrightarrow> loss (result (trials ! i)) \<le> loss (result (trials ! j)))
          \<and> (\<forall>j<i. status (result (trials ! j)) = STATUS_OK
                 \<longrightarrow> loss (result (trials ! i)) < loss (result (trials ! j)))"
    by blast
next
  show "best_model
            [\<lparr>result = \<lparr>loss = 3 / 10, status = STATUS_OK, trained_model = m0\<rparr>\<rparr>,
             \<lparr>result = \<lparr>loss = - 1 / 10, status = STATUS_OK, trained_model = m1\<rparr>\<rparr>,
             \<lparr>result = \<lparr>loss = 5 / 10, status = STATUS_OK, trained_model = m2\<rparr>\<rparr>]
           = Inr m1"
    by (simp add: best_model_def valid_trial_list_def np_argmin_def)
qed

theorem best_model_first_minimal_success_witness:
  "(\<exists>t\<in>set [\<lparr>result = \<lparr>loss = - 1, status = STATUS_FAIL, trained_model = (0::nat)\<rparr>\<rparr>,
               \<lparr>result = \<lparr>loss = 3 / 10, status = STATUS_OK, trained_model = 1\<rparr>\<rparr>,
               \<lparr>result = \<lparr>loss = - 1 / 10, status = STATUS_OK, trained_model = 2\<rparr>\<rparr>,
               \<lparr>result = \<lparr>loss = - 1 / 10, status = STATUS_OK, trained_model = 3\<rparr>\<rparr>].
        status (result t) = STATUS_OK)
   \<and> best_model [\<lparr>result = \<lparr>loss = - 1, status = STATUS_FAIL, trained_model = (0::nat)\<rparr>\<rparr>,
               \<lparr>result = \<lparr>loss = 3 / 10, status = STATUS_OK, trained_model = 1\<rparr>\<rparr>,
               \<lparr>result = \<lparr>loss = - 1 / 10, status = STATUS_OK, trained_model = 2\<rparr>\<rparr>,
               \<lparr>result = \<lparr>loss = - 1 / 10, status = STATUS_OK, trained_model = 3\<rparr>\<rparr>]
       = Inr 2"
  using best_model_first_minimal_success
    [of "[\<lparr>result = \<lparr>loss = - 1, status = STATUS_FAIL, trained_model = (0::nat)\<rparr>\<rparr>,
          \<lparr>result = \<lparr>loss = 3 / 10, status = STATUS_OK, trained_model = 1\<rparr>\<rparr>,
          \<lparr>result = \<lparr>loss = - 1 / 10, status = STATUS_OK, trained_model = 2\<rparr>\<rparr>,
          \<lparr>result = \<lparr>loss = - 1 / 10, status = STATUS_OK, trained_model = 3\<rparr>\<rparr>]"]
  by (simp add: best_model_def valid_trial_list_def np_argmin_def)

text \<open>
  Claim C3. When no trial of the log has status \<^verbatim>\<open>STATUS_OK\<close>, the list of valid trials is
  empty, \<^verbatim>\<open>np.argmin\<close> raises \<^verbatim>\<open>ValueError\<close> on the empty list of losses, and \<^verbatim>\<open>best_model\<close>
  raises it in turn: no trial is returned. The three scripts define \<^verbatim>\<open>best_model\<close> with the
  same body.
\<close>

theorem best_model_all_failed_raises:
  assumes "\<forall>t\<in>set trials. status (result t) \<noteq> STATUS_OK"
  shows "best_model trials = Inl ValueError"
proof -
  have "filter (\<lambda>t. STATUS_OK = status (result t)) trials = []"
    using assms by (auto simp: filter_empty_conv)
  then show ?thesis
    by (simp add: best_model_def valid_trial_list_def np_argmin_def)
qed

theorem best_model_all_failed_raises_witness:
  "best_model [\<lparr>result = \<lparr>loss = 3 / 10, status = STATUS_FAIL, trained_model = (0::nat)\<rparr>\<rparr>,
               \<lparr>result = \<lparr>loss = - 1 / 10, status = STATUS_NEW, trained_model = 1\<rparr>\<rparr>]
       = Inl ValueError"
  using best_model_all_failed_raises
    [of "[\<lparr>result = \<lparr>loss = 3 / 10, status = STATUS_FAIL, trained_model = (0::nat)\<rparr>\<rparr>,
          \<lparr>result = \<lparr>loss = - 1 / 10, status = STATUS_NEW, trained_model = 1\<rparr>\<rparr>]"]
  by simp

section \<open>Properties of the strong demographic parity score\<close>

lemma sum_list_bounds:
  assumes "\<And>x. x \<in> set xs \<Longrightarrow> 0 \<le> f x \<and> f x \<le> (c::real)"
  shows "0 \<le> (\<Sum>x\<leftarrow>xs. f x) \<and> (\<Sum>x\<leftarrow>xs. f x) \<le> real (length xs) * c"
  using assms
proof (induction xs)
  case Nil
  then show ?case by simp
next
  case (Cons a xs)
  then have "0 \<le> f a \<and> f a \<le> c" by simp
  moreover have "0 \<le> (\<Sum>x\<leftarrow>xs. f x) \<and> (\<Sum>x\<leftarrow>xs. f x) \<le> real (length xs) * c"
    using Cons by simp
  ultimately show ?case by (simp add: algebra_simps)
qed

lemma pair_credit_bounds: "0 \<le> pair_credit p n \<and> pair_credit p n \<le> 1"
  by (simp add: pair_credit_def)

lemma auc_value_bounds: "0 \<le> auc_value ys ps \<and> auc_value ys ps \<le> 1"
proof -
  define pos where "pos = map snd (filter fst (zip ys ps))"
  define neg where "neg = map snd (filter (\<lambda>yp. \<not> fst yp) (zip ys ps))"
  define total where "total = (\<Sum>p\<leftarrow>pos. \<Sum>n\<leftarrow>neg. pair_credit p n)"
  have inner: "0 \<le> (\<Sum>n\<leftarrow>neg. pair_credit p n) \<and> (\<Sum>n\<leftarrow>neg. pair_credit p n) \<le> real (length neg) * 1" for p
    by (rule sum_list_bounds) (simp add: pair_credit_bounds)
  have outer: "0 \<le> total \<and> total \<le> real (length pos) * (real (length neg) * 1)"
    unfolding total_def by (rule sum_list_bounds) (use inner in blast)
  have eq: "auc_value ys ps = total / real (length pos * length neg)"
    by (simp add: auc_value_def pos_def neg_def total_def Let_def)
  show ?thesis
  proof (cases "length pos * length neg = 0")
    case True
    then have "real (length pos * length neg) = 0" by simp
    then have "auc_value ys ps = 0" unfolding eq by simp
    then show ?thesis by simp
  next
    case False
    then have "0 < real (length pos * length neg)" by simp
    with outer show ?thesis by (simp add: eq divide_le_eq)
  qed
qed

lemma roc_auc_score_bounds: "roc_auc_score ys ps = Inr a \<Longrightarrow> 0 \<le> a \<and> a \<le> 1"
  using auc_value_bounds by (auto simp: roc_auc_score_def split: if_splits)

lemma sens_auc_loop_bounds:
  "sens_auc_loop acc us col y_prob = Inr a \<Longrightarrow> 0 \<le> acc \<Longrightarrow> acc \<le> 1 \<Longrightarrow> 0 \<le> a \<and> a \<le> 1"
proof (induction us arbitrary: acc)
  case Nil
  then show ?case by simp
next
  case (Cons u us)
  from Cons.prems(1) obtain auc where auc: "roc_auc_score (map (\<lambda>v. v = u) col) y_prob = Inr auc"
    and rest: "sens_auc_loop (max acc (max (1 - auc) auc)) us col y_prob = Inr a"
    by (auto split: sum.splits)
  from roc_auc_score_bounds[OF auc] have "0 \<le> auc" "auc \<le> 1" by simp_all
  with Cons.prems(2,3) have "0 \<le> max acc (max (1 - auc) auc)" "max acc (max (1 - auc) auc) \<le> 1"
    by simp_all
  with Cons.IH[OF rest] show ?case by simp
qed

lemma np_unique_set: "set (np_unique xs) = set xs"
  by (simp add: np_unique_def)

lemma np_unique_distinct: "distinct (np_unique xs)"
  by (simp add: np_unique_def)

lemma both_classes:
  assumes "length (np_unique col) \<noteq> 1" "u \<in> set col"
  shows "True \<in> set (map (\<lambda>v. v = u) col) \<and> False \<in> set (map (\<lambda>v. v = u) col)"
proof -
  have "card (set (np_unique col)) = length (np_unique col)"
    by (rule distinct_card[OF np_unique_distinct])
  then have "card (set col) = length (np_unique col)"
    by (simp only: np_unique_set)
  with assms(1) have c1: "card (set col) \<noteq> 1" by linarith
  have "\<exists>w\<in>set col. w \<noteq> u"
  proof (rule ccontr)
    assume "\<not> (\<exists>w\<in>set col. w \<noteq> u)"
    with assms(2) have eq: "set col = {u}" by blast
    have "card {u} = 1" by simp
    then have "card (set col) = 1" by (simp only: eq)
    with c1 show False by blast
  qed
  then obtain w where w: "w \<in> set col" "w \<noteq> u" by blast
  have "True \<in> (\<lambda>v. v = u) ` set col" using assms(2) by blast
  moreover have "False \<in> (\<lambda>v. v = u) ` set col" using w by blast
  ultimately show ?thesis by (simp only: set_map)
qed

lemma sens_auc_loop_succeeds:
  assumes "length col = length y_prob" "\<forall>x\<in>set y_prob. isfinite x"
    "length (np_unique col) \<noteq> 1" "set us \<subseteq> set col"
  shows "\<exists>a. sens_auc_loop acc us col y_prob = Inr a"
  using assms(4)
proof (induction us arbitrary: acc)
  case Nil
  then show ?case by simp
next
  case (Cons u us)
  then have u: "u \<in> set col" and us: "set us \<subseteq> set col" by simp_all
  let ?M = "map (\<lambda>v. v = u) col"
  have len: "length ?M = length y_prob" using assms(1) by simp
  have fin: "\<not> (\<exists>x\<in>set y_prob. \<not> isfinite x)" using assms(2) by simp
  have cls: "True \<in> set ?M \<and> False \<in> set ?M"
    by (rule both_classes[OF assms(3) u])
  have "roc_auc_score ?M y_prob = Inr (auc_value ?M (map the_fin y_prob))"
    unfolding roc_auc_score_def using len fin cls by (simp only: if_True if_False simp_thms)
  with Cons.IH[OF us] show ?case by simp
qed

lemma single_column_score:
  assumes "length col \<noteq> 0 \<longrightarrow> length col = length y_prob" "\<forall>x\<in>set y_prob. isfinite x"
  shows "\<exists>a. sensitive_aucs_loop [col] y_prob = Inr [a] \<and> 0 \<le> a \<and> a \<le> 1"
proof (cases "length (np_unique col) = 1")
  case True
  then show ?thesis by simp
next
  case False
  show ?thesis
  proof (cases "col = []")
    case True
    then show ?thesis by (simp add: np_unique_def)
  next
    case ne: False
    with assms(1) have len: "length col = length y_prob" by simp
    from sens_auc_loop_succeeds[OF len assms(2) False, of "np_unique col" 0]
    obtain a where a: "sens_auc_loop 0 (np_unique col) col y_prob = Inr a"
      by (auto simp: np_unique_set)
    from sens_auc_loop_bounds[OF a] have "0 \<le> a \<and> a \<le> 1" by simp
    with a False show ?thesis by simp
  qed
qed

lemma sdp_single_column_range:
  assumes "columns_of s = [col]" "length col = length y_prob" "\<forall>x\<in>set y_prob. isfinite x"
  shows "\<exists>v. strong_demographic_parity_score s y_prob = Inr (Num v) \<and> 0 \<le> v \<and> v \<le> 1"
proof -
  from single_column_score[of col y_prob] assms(2,3)
  obtain a where a: "sensitive_aucs_loop [col] y_prob = Inr [a]" "0 \<le> a" "a \<le> 1" by auto
  have "strong_demographic_parity_score s y_prob = Inr (Num \<bar>2 * a - 1\<bar>)"
    using a(1) assms(1) by (simp add: strong_demographic_parity_score_def)
  moreover have "0 \<le> \<bar>2 * a - 1\<bar> \<and> \<bar>2 * a - 1\<bar> \<le> 1" using a(2,3) by (simp add: abs_le_iff)
  ultimately show ?thesis by blast
qed

lemma sdp_degenerate_column:
  assumes "columns_of s = [col]" "length (np_unique col) = 1"
  shows "strong_demographic_parity_score s y_prob = Inr (Num 1)"
  using assms by (simp add: strong_demographic_parity_score_def)

lemma sensitive_aucs_loop_length:
  "sensitive_aucs_loop cols y_prob = Inr aucs \<Longrightarrow> length aucs = length cols"
  by (induction cols arbitrary: aucs) (auto split: sum.splits if_splits)

lemma sdp_not_single_column_raises:
  assumes "length (columns_of s) \<noteq> 1"
  shows "\<exists>e. strong_demographic_parity_score s y_prob = Inl e"
proof (cases "sensitive_aucs_loop (columns_of s) y_prob")
  case (Inl e)
  then show ?thesis by (simp add: strong_demographic_parity_score_def)
next
  case (Inr aucs)
  have "length aucs = length (columns_of s)"
    using Inr by (rule sensitive_aucs_loop_length)
  with assms Inr show ?thesis by (simp add: strong_demographic_parity_score_def)
qed

text \<open>
  Claim C1. For a two-dimensional \<open>s\<close> with two protected columns the claim expects the
  sequence of the transformed per-column scores. The per-column scores are computed
  (both are 1 here), but \<^verbatim>\<open>s_auc\<close> is then a Python list: \<^verbatim>\<open>2*s_auc\<close> repeats the list and
  \<^verbatim>\<open>- 1\<close> raises \<^verbatim>\<open>TypeError\<close>, so no sequence is returned.
\<close>

theorem sdp_two_columns_type_error:
  "sensitive_aucs_loop [[0, 1], [0, 1 :: int]] [Fin (1 / 5), Fin (4 / 5)] = Inr [1, 1]
   \<and> spec_sdp_sequence [1, 1] = [1, 1]
   \<and> strong_demographic_parity_score (Arr2 [[0, 1], [0, 1 :: int]]) [Fin (1 / 5), Fin (4 / 5)]
       = Inl TypeError"
  by (simp add: strong_demographic_parity_score_def spec_sdp_sequence_def np_unique_def
      roc_auc_score_def auc_value_def pair_credit_def)

text \<open>
  Claim C9. The claim bounds the returned value for every protected-attribute input,
  multi-column ones included. With one protected column the value is in \<open>[0, 1]\<close>
  (\<open>sdp_single_column_range\<close>) and a single-valued column gives 1
  (\<open>sdp_degenerate_column\<close>); with two columns, one of them single-valued, the function
  raises \<^verbatim>\<open>TypeError\<close> and returns no value at all.
\<close>

theorem sdp_degenerate_and_binary_columns_type_error:
  "strong_demographic_parity_score (Arr2 [[1, 1, 1], [0, 1, 0 :: int]])
     [Fin (1 / 10), Fin (9 / 10), Fin (1 / 2)] = Inl TypeError
   \<and> strong_demographic_parity_score (Arr1 [1, 1, 1 :: int])
     [Fin (1 / 10), Fin (9 / 10), Fin (1 / 2)] = Inr (Num 1)
   \<and> strong_demographic_parity_score (Arr1 [0, 1, 0 :: int])
     [Fin (1 / 10), Fin (9 / 10), Fin (1 / 2)] = Inr (Num 1)"
  by (simp add: strong_demographic_parity_score_def np_unique_def
      roc_auc_score_def auc_value_def pair_credit_def)

section \<open>Properties of the evaluator and of the objective\<close>

lemma isin_disjoint:
  assumes "set trainset \<inter> set testset = {}"
  shows "set (isin X trainset) \<inter> set (isin X testset) = {}"
  using assms by (auto simp: isin_def)

lemma isin_range_index_exhaustive:
  assumes "map fst X = [0..<length X]" "partitions_positions (length X) (trainset, testset)"
  shows "set (isin X trainset) \<union> set (isin X testset) = set X"
proof -
  have "fst row \<in> {0..<length X}" if "row \<in> set X" for row
  proof -
    from that have "fst row \<in> set (map fst X)" by simp
    then show ?thesis by (simp only: assms(1) set_upt)
  qed
  with assms(2) show ?thesis by (auto simp: isin_def partitions_positions_def)
qed

lemma isin_label_beyond_positions_dropped:
  assumes "partitions_positions (length X) (trainset, testset)" "row \<in> set X" "length X \<le> fst row"
  shows "row \<notin> set (isin X trainset) \<union> set (isin X testset)"
proof -
  from assms(3) have "fst row \<notin> {0..<length X}" by simp
  with assms(1) have "fst row \<notin> set trainset \<union> set testset"
    by (simp add: partitions_positions_def)
  then show ?thesis by (simp add: isin_def)
qed

lemma example_folds_partition:
  "list_all (partitions_positions 20) example_folds"
proof -
  have "partitions_positions 20
          (filter (\<lambda>i. i \<noteq> 2 * k \<and> i \<noteq> 2 * k + 1) [0..<20], [2 * k, 2 * k + 1])"
    if "k < 10" for k
    using that by (auto simp: partitions_positions_def)
  then show ?thesis by (simp add: example_folds_def list_all_iff)
qed

text \<open>
  Claim C7. The splitter yields row positions, while the evaluator selects the rows of
  \<open>X\<close> whose index label is among them. The table the evaluator receives is the outer
  fold's training partition, which keeps the labels of the outer table. For such a table
  of twenty rows and ten folds that each partition the positions \<open>0..19\<close>, the row
  labelled 20 is in neither selection of any fold; in the first fold the training
  selection has 17 rows and the test selection one (the row labelled 0), so their union
  is not the table. (The two selections are disjoint, \<open>isin_disjoint\<close>, and with labels
  \<open>0..n-1\<close> their union is the table, \<open>isin_range_index_exhaustive\<close>.)
\<close>

theorem isin_by_label_loses_rows:
  "length inner_X_example = 20
   \<and> list_all (partitions_positions (length inner_X_example)) example_folds
   \<and> (20, (9 / 10, True)) \<in> set inner_X_example
   \<and> list_all (\<lambda>f. (20, (9 / 10, True))
                     \<notin> set (isin inner_X_example (fst f)) \<union> set (isin inner_X_example (snd f)))
        example_folds
   \<and> length (isin inner_X_example (fst (hd example_folds))) = 17
   \<and> map fst (isin inner_X_example (snd (hd example_folds))) = [0]
   \<and> set (isin inner_X_example (fst (hd example_folds)))
         \<union> set (isin inner_X_example (snd (hd example_folds)))
       \<noteq> set inner_X_example"
proof (intro conjI)
  show len: "length inner_X_example = 20" by (simp add: inner_X_example_def upt_rec)
  show "list_all (partitions_positions (length inner_X_example)) example_folds"
    unfolding len by (rule example_folds_partition)
  show mem: "(20, (9 / 10, True)) \<in> set inner_X_example"
    by (simp add: inner_X_example_def upt_rec)
  have pos: "set (fst f) \<union> set (snd f) \<subseteq> {0..<20}" if "f \<in> set example_folds" for f
    using that by (auto simp: example_folds_def)
  have out: "(20, (9 / 10, True))
               \<notin> set (isin inner_X_example (fst f)) \<union> set (isin inner_X_example (snd f))"
    if "f \<in> set example_folds" for f
    using pos[OF that] by (auto simp: isin_def)
  then show "list_all (\<lambda>f. (20, (9 / 10, True))
                     \<notin> set (isin inner_X_example (fst f)) \<union> set (isin inner_X_example (snd f)))
        example_folds" by (simp only: list_all_iff) blast
  show "length (isin inner_X_example (fst (hd example_folds))) = 17"
    by (simp add: inner_X_example_def example_folds_def isin_def upt_rec)
  show "map fst (isin inner_X_example (snd (hd example_folds))) = [0]"
    by (simp add: inner_X_example_def example_folds_def isin_def upt_rec)
  have "hd example_folds \<in> set example_folds" by (simp add: example_folds_def upt_rec)
  from out[OF this] mem
  show "set (isin inner_X_example (fst (hd example_folds)))
          \<union> set (isin inner_X_example (snd (hd example_folds)))
        \<noteq> set inner_X_example" by metis
qed

lemma nonfinite_conv: "(False \<in> set (map isfinite ps)) = (\<exists>x\<in>set ps. \<not> isfinite x)"
  by auto

lemma roc_auc_score_nonfinite:
  "\<exists>x\<in>set ps. \<not> isfinite x \<Longrightarrow> roc_auc_score ys ps = Inl ValueError"
  by (simp add: roc_auc_score_def)

text \<open>
  Claim C5, as amended. In \<^verbatim>\<open>fal_model.py\<close> a fold in which some predicted probability is
  not finite appends 0.5 to the performance list and 0.5 to the fairness list. The
  evaluators of \<^verbatim>\<open>frf_model.py\<close> and \<^verbatim>\<open>adult_lr_model.py\<close> have no such test: there the
  fold raises the \<^verbatim>\<open>ValueError\<close> of \<^verbatim>\<open>roc_auc_score\<close>.
\<close>

theorem nonfinite_fold_scores:
  assumes "fit_predict_proba C model (isin X (fst tt)) (isin y (fst tt)) (isin X (snd tt)) = Inr y_pred_probs"
    and "\<exists>x\<in>set y_pred_probs. \<not> isfinite x"
  shows "fold_body_fal C model X y (auc_perf_list, auc_fair_list) tt
           = Inr (auc_perf_list @ [1 / 2], auc_fair_list @ [1 / 2])
       \<and> fold_body_frf C model X y auc_list tt = Inl ValueError
       \<and> fold_body_lr C model X y s (auc_perf_list, auc_fair_list) tt = Inl ValueError"
proof (intro conjI)
  from assms(2) have nf: "False \<in> set (map isfinite y_pred_probs)" by (simp only: nonfinite_conv)
  show "fold_body_fal C model X y (auc_perf_list, auc_fair_list) tt
           = Inr (auc_perf_list @ [1 / 2], auc_fair_list @ [1 / 2])"
    using assms(1) nf by (simp add: fold_body_fal_def Let_def del: set_map)
  have bad: "roc_auc_score ys y_pred_probs = Inl ValueError" for ys
    using assms(2) by (rule roc_auc_score_nonfinite)
  show "fold_body_frf C model X y auc_list tt = Inl ValueError"
    using assms(1) by (simp add: fold_body_frf_def Let_def bad)
  show "fold_body_lr C model X y s (auc_perf_list, auc_fair_list) tt = Inl ValueError"
    using assms(1) by (simp add: fold_body_lr_def Let_def bad)
qed

theorem nonfinite_fold_scores_witness:
  "fold_body_fal nan_collaborators 0 example_X example_y ([], []) ([0, 1], [2, 3])
     = Inr ([] @ [1 / 2], [] @ [1 / 2])
   \<and> fold_body_frf nan_collaborators 0 example_X example_y [] ([0, 1], [2, 3]) = Inl ValueError
   \<and> fold_body_lr nan_collaborators 0 example_X example_y example_y ([], []) ([0, 1], [2, 3])
     = Inl ValueError"
proof -
  have h1: "fit_predict_proba nan_collaborators 0 (isin example_X (fst ([0, 1], [2, 3])))
              (isin example_y (fst ([0, 1], [2, 3]))) (isin example_X (snd ([0, 1], [2, 3])))
            = Inr [Fin (1 / 2), NaN]"
    by (simp add: nan_collaborators_def)
  have h2: "\<exists>x\<in>set [Fin (1 / 2), NaN]. \<not> isfinite x" by simp
  from nonfinite_fold_scores[OF h1 h2] show ?thesis .
qed

text \<open>
  The claim as stated fails for two of the three scripts: with a nan among the predicted
  probabilities the evaluators of \<^verbatim>\<open>adult_lr_model.py\<close> and \<^verbatim>\<open>frf_model.py\<close> raise, where
  the evaluator of \<^verbatim>\<open>fal_model.py\<close> returns the sentinel means.
\<close>

theorem nonfinite_unguarded_in_lr_and_frf:
  "cross_val_score_custom_lr nan_collaborators 0 example_X example_y example_y 10 = Inl ValueError
   \<and> cross_val_score_custom_frf nan_collaborators 0 example_X example_y 10 = Inl ValueError
   \<and> cross_val_score_custom_fal nan_collaborators 0 example_X example_y 10 = Inr (1 / 2, 1 / 2)"
  by (simp add: cross_val_score_custom_lr_def cross_val_score_custom_frf_def
      cross_val_score_custom_fal_def nan_collaborators_def example_X_def example_y_def
      example_folds_def fold_body_lr_def fold_body_frf_def fold_body_fal_def isin_def
      roc_auc_score_def nanmean_def upt_rec Let_def)

text \<open>
  Claim C6, as amended. In \<^verbatim>\<open>fal_model.py\<close> and \<^verbatim>\<open>adult_lr_model.py\<close> the loss of a trial is
  \<open>-((1 - theta) * performance - theta * fairness)\<close> for the two scores the evaluator returns
  on the current training partition. In \<^verbatim>\<open>frf_model.py\<close> the evaluator returns the
  performance only and the loss is its negation (theta is passed to the classifier).
\<close>

theorem objective_loss:
  "(cross_val_score_custom_fal Cf params (X_train_df gf) (y_train_df gf) 10 = Inr (perf, fair)
      \<longrightarrow> objective_fal Cf gf params
            = Inr \<lparr>loss = spec_loss (theta gf) perf fair, status = STATUS_OK, trained_model = params\<rparr>)
   \<and> (cross_val_score_custom_lr Cl (build_lr params_lr) (X_train_df gl) (y_train_df gl) (s_train gl) K
        = Inr (perf, fair)
      \<longrightarrow> objective_lr Cl build_lr gl params_lr
            = Inr \<lparr>loss = spec_loss (theta gl) perf fair, status = STATUS_OK,
                   trained_model = build_lr params_lr\<rparr>)
   \<and> (cross_val_score_custom_frf Cr (build_frf params_frf) (X_train_df gr) (y_train_df gr) K
        = Inr perf_frf
      \<longrightarrow> objective_frf Cr build_frf gr params_frf
            = Inr \<lparr>loss = - perf_frf, status = STATUS_OK, trained_model = build_frf params_frf\<rparr>)"
  by (simp add: objective_fal_def objective_lr_def objective_frf_def spec_loss_def K_def Let_def)

lemma example_evaluations:
  "cross_val_score_custom_fal example_collaborators m example_X example_y 10 = Inr (1, 1)"
  "cross_val_score_custom_lr example_collaborators m example_X example_y example_y 10 = Inr (1, 1)"
  "cross_val_score_custom_frf example_collaborators m example_X example_y 10 = Inr 1"
  by (simp_all add: cross_val_score_custom_lr_def cross_val_score_custom_frf_def
      cross_val_score_custom_fal_def example_collaborators_def example_X_def example_y_def
      example_folds_def fold_body_lr_def fold_body_frf_def fold_body_fal_def isin_def
      roc_auc_score_def auc_value_def pair_credit_def nanmean_def upt_rec Let_def)

theorem objective_loss_witness:
  "objective_fal example_collaborators example_globals (1 / 2)
     = Inr \<lparr>loss = spec_loss (1 / 2) 1 1, status = STATUS_OK, trained_model = 1 / 2\<rparr>
   \<and> objective_lr example_collaborators id example_globals (1 / 2)
     = Inr \<lparr>loss = spec_loss (1 / 2) 1 1, status = STATUS_OK, trained_model = id (1 / 2)\<rparr>
   \<and> objective_frf example_collaborators id example_globals (1 / 2)
     = Inr \<lparr>loss = - 1, status = STATUS_OK, trained_model = id (1 / 2)\<rparr>"
  using objective_loss[where Cf = example_collaborators and params = "1 / 2"
      and gf = example_globals and perf = 1 and fair = 1
      and Cl = example_collaborators and build_lr = id and params_lr = "1 / 2"
      and gl = example_globals
      and Cr = example_collaborators and build_frf = id and params_frf = "1 / 2"
      and gr = example_globals and perf_frf = 1]
  by (simp add: example_evaluations example_globals_def K_def)

text \<open>
  The claim as stated fails for \<^verbatim>\<open>frf_model.py\<close>: on the example, with theta one half, the
  recorded loss is \<open>-1\<close>, the negated performance, while the weighted objective of the
  performance and the fairness score that the other two scripts compute for the same
  predictions is 0.
\<close>

theorem objective_frf_loss_not_weighted:
  "objective_frf example_collaborators id example_globals (1 / 2)
     = Inr \<lparr>loss = - 1, status = STATUS_OK, trained_model = 1 / 2\<rparr>
   \<and> cross_val_score_custom_lr example_collaborators (1 / 2) example_X example_y example_y 10
     = Inr (1, 1)
   \<and> spec_loss (theta example_globals) 1 1 = 0
   \<and> - 1 \<noteq> spec_loss (theta example_globals) 1 1"
  by (simp add: objective_frf_def K_def example_evaluations example_globals_def spec_loss_def)

section \<open>Properties of the numeric sub-pipeline\<close>












section \<open>Properties of the Clamper\<close>

lemma example_value_counts: "value_counts example_column
     = [(''tanker'', 6), (''bulk'', 5), (''cargo'', 4), (''tug'', 1), (''ferry'', 1), (''dredger'', 1)]"
  by (simp add: value_counts_def example_column_def)

lemma example_fit: "Clamper_fit Clamper_init [(''vessel_type'', example_column)]
   = (Inr (), \<lparr>is_fit = True, values_to_keep = [''vessel_type'' \<mapsto> [''tanker'', ''bulk'']]\<rparr>)"
  by (simp add: Clamper_fit_def Clamper_init_def example_value_counts get_values_to_keep_from_value_counts_def np_argmin_def)

lemma clamp_column_idem: "clamp_column keep (clamp_column keep col) = clamp_column keep col"
  by (induction col) (simp_all add: clamp_column_def)

lemma Clamper_transform_idem:
  "Clamper_transform c X = Inr Y \<Longrightarrow> Clamper_transform c Y = Inr Y"
proof (induction X arbitrary: Y)
  case Nil
  then show ?case by simp
next
  case (Cons a X)
  obtain name col where a: "a = (name, col)" by (cases a)
  from Cons.prems a obtain keep rest' where k: "values_to_keep c name = Some keep"
    and r: "Clamper_transform c X = Inr rest'" and Y: "Y = (name, clamp_column keep col) # rest'"
    by (auto split: option.splits sum.splits)
  from Cons.IH[OF r] k Y show ?case by (simp add: clamp_column_idem)
qed


lemma fit_columns_other_names:
  "fit_columns c X = (r, c') \<Longrightarrow> name \<notin> fst ` set X \<Longrightarrow>
     values_to_keep c' name = values_to_keep c name"
proof (induction X arbitrary: c)
  case Nil
  then show ?case by simp
next
  case (Cons a X)
  obtain n col where a: "a = (n, col)" by (cases a)
  with Cons.prems(2) have ne: "name \<noteq> n" and nin: "name \<notin> fst ` set X" by auto
  show ?case
  proof (cases "get_values_to_keep_from_value_counts (value_counts col)")
    case (Inl e)
    with Cons.prems(1) a show ?thesis by simp
  next
    case (Inr keep)
    with Cons.prems(1) a have
      "fit_columns (c\<lparr>values_to_keep := (values_to_keep c)(n \<mapsto> keep)\<rparr>) X = (r, c')" by simp
    from Cons.IH[OF this nin] ne show ?thesis by simp
  qed
qed


lemma fit_columns_dom:
  "fit_columns c X = (Inr u, c') \<Longrightarrow> values_to_keep c name \<noteq> None \<Longrightarrow> values_to_keep c' name \<noteq> None"
proof (induction X arbitrary: c)
  case Nil
  then show ?case by simp
next
  case (Cons a X)
  obtain n cl where a: "a = (n, cl)" by (cases a)
  from Cons.prems(1) a obtain keep where
    rest: "fit_columns (c\<lparr>values_to_keep := (values_to_keep c)(n \<mapsto> keep)\<rparr>) X = (Inr u, c')"
    by (auto split: sum.splits)
  show ?case by (rule Cons.IH[OF rest]) (use Cons.prems(2) in simp)
qed

lemma fit_columns_keys:
  "fit_columns c X = (Inr u, c') \<Longrightarrow> row \<in> set X \<Longrightarrow> values_to_keep c' (fst row) \<noteq> None"
proof (induction X arbitrary: c)
  case Nil
  then show ?case by simp
next
  case (Cons a X)
  obtain n cl where a: "a = (n, cl)" by (cases a)
  from Cons.prems(1) a obtain keep where
    rest: "fit_columns (c\<lparr>values_to_keep := (values_to_keep c)(n \<mapsto> keep)\<rparr>) X = (Inr u, c')"
    by (auto split: sum.splits)
  show ?case
  proof (cases "row = a")
    case True
    have "values_to_keep c' n \<noteq> None"
      by (rule fit_columns_dom[OF rest]) simp
    with True a show ?thesis by simp
  next
    case False
    with Cons.prems(2) have "row \<in> set X" by simp
    from Cons.IH[OF rest this] show ?thesis .
  qed
qed

lemma Clamper_transform_total:
  "(\<And>row. row \<in> set X \<Longrightarrow> values_to_keep c (fst row) \<noteq> None) \<Longrightarrow>
     \<exists>Y. Clamper_transform c X = Inr Y"
proof (induction X)
  case Nil
  then show ?case by simp
next
  case (Cons a X)
  obtain n cl where a: "a = (n, cl)" by (cases a)
  from Cons.prems[of a] a obtain keep where k: "values_to_keep c n = Some keep" by auto
  from Cons.IH Cons.prems obtain Y where "Clamper_transform c X = Inr Y" by auto
  with k a show ?case by simp
qed

lemma fit_then_transform:
  "distinct (map fst X) \<Longrightarrow>
     fit_transform_columns c X =
       (case fit_columns c X of
          (Inl e, c') \<Rightarrow> (Inl e, c')
        | (Inr u, c') \<Rightarrow> (Clamper_transform c' X, c'))"
proof (induction X arbitrary: c)
  case Nil
  then show ?case by simp
next
  case (Cons a X)
  obtain n cl where a: "a = (n, cl)" by (cases a)
  from Cons.prems a have d: "distinct (map fst X)" and nin: "n \<notin> fst ` set X" by auto
  show ?case
  proof (cases "get_values_to_keep_from_value_counts (value_counts cl)")
    case (Inl e)
    then show ?thesis by (simp add: a)
  next
    case (Inr keep)
    let ?c1 = "c\<lparr>values_to_keep := (values_to_keep c)(n \<mapsto> keep)\<rparr>"
    obtain r c' where fc: "fit_columns ?c1 X = (r, c')" by (cases "fit_columns ?c1 X")
    have ih: "fit_transform_columns ?c1 X =
       (case fit_columns ?c1 X of (Inl e, c') \<Rightarrow> (Inl e, c') | (Inr u, c') \<Rightarrow> (Clamper_transform c' X, c'))"
      by (rule Cons.IH[OF d])
    show ?thesis
    proof (cases r)
      case (Inl e)
      with ih fc Inr show ?thesis by (simp add: a)
    next
      case r: (Inr u)
      from fit_columns_other_names[OF fc nin] have k: "values_to_keep c' n = Some keep" by simp
      from ih fc r have ft: "fit_transform_columns ?c1 X = (Clamper_transform c' X, c')" by simp
      show ?thesis
      proof (cases "Clamper_transform c' X")
        case (Inl e)
        with ft fc r Inr k show ?thesis by (simp add: a)
      next
        case (Inr rest')
        with ft fc r \<open>get_values_to_keep_from_value_counts (value_counts cl) = Inr keep\<close> k
        show ?thesis by (simp add: a)
      qed
    qed
  qed
qed

text \<open>
  Claim C10. A second \<^verbatim>\<open>transform\<close> by the same Clamper leaves the output of the first
  unchanged. For a table with distinct column names, \<^verbatim>\<open>fit_transform\<close> gives the same
  result and leaves the Clamper in the same state as \<^verbatim>\<open>fit\<close> followed by \<^verbatim>\<open>transform\<close>; when
  \<^verbatim>\<open>fit\<close> raises, \<^verbatim>\<open>fit_transform\<close> raises the same exception in the same state.
\<close>

theorem clamper_transform_idempotent_fit_transform_agrees:
  "(\<forall>Y. Clamper_transform c X = Inr Y \<longrightarrow> Clamper_transform c Y = Inr Y)
   \<and> (distinct (map fst X) \<longrightarrow>
        Clamper_fit_transform c X =
          (case Clamper_fit c X of
             (Inl e, c') \<Rightarrow> (Inl e, c')
           | (Inr u, c') \<Rightarrow> (Clamper_transform c' X, c')))"
proof (intro conjI allI impI)
  fix Y assume "Clamper_transform c X = Inr Y"
  then show "Clamper_transform c Y = Inr Y" by (rule Clamper_transform_idem)
next
  assume d: "distinct (map fst X)"
  obtain r c' where fc: "fit_columns c X = (r, c')" by (cases "fit_columns c X")
  have tf: "Clamper_transform (c'\<lparr>is_fit := True\<rparr>) T = Clamper_transform c' T" for T
    by (induction T) (auto split: option.splits sum.splits)
  show "Clamper_fit_transform c X =
          (case Clamper_fit c X of
             (Inl e, c') \<Rightarrow> (Inl e, c')
           | (Inr u, c') \<Rightarrow> (Clamper_transform c' X, c'))"
  proof (cases r)
    case (Inl e)
    with fc fit_then_transform[OF d, of c] show ?thesis
      by (simp add: Clamper_fit_transform_def Clamper_fit_def)
  next
    case (Inr u)
    from fit_columns_keys[OF fc[unfolded Inr]] have "\<exists>Y. Clamper_transform c' X = Inr Y"
      by (intro Clamper_transform_total) blast
    then obtain Y where "Clamper_transform c' X = Inr Y" by blast
    with Inr fc fit_then_transform[OF d, of c] show ?thesis
      by (simp add: Clamper_fit_transform_def Clamper_fit_def tf)
  qed
qed

theorem clamper_transform_idempotent_fit_transform_agrees_witness:
  "Clamper_transform \<lparr>is_fit = True, values_to_keep = [''vessel_type'' \<mapsto> [''tanker'', ''bulk'']]\<rparr>
     [(''vessel_type'', [''cargo'', ''tanker'', ''yacht''])]
     = Inr [(''vessel_type'', [''other'', ''tanker'', ''other''])]
   \<and> Clamper_transform \<lparr>is_fit = True, values_to_keep = [''vessel_type'' \<mapsto> [''tanker'', ''bulk'']]\<rparr>
     [(''vessel_type'', [''other'', ''tanker'', ''other''])]
     = Inr [(''vessel_type'', [''other'', ''tanker'', ''other''])]
   \<and> Clamper_fit_transform Clamper_init [(''vessel_type'', example_column)]
     = (Clamper_transform
          \<lparr>is_fit = True, values_to_keep = [''vessel_type'' \<mapsto> [''tanker'', ''bulk'']]\<rparr>
          [(''vessel_type'', example_column)],
        \<lparr>is_fit = True, values_to_keep = [''vessel_type'' \<mapsto> [''tanker'', ''bulk'']]\<rparr>)"
proof -
  let ?c0 = "\<lparr>is_fit = True, values_to_keep = [''vessel_type'' \<mapsto> [''tanker'', ''bulk'']]\<rparr>"
  let ?X = "[(''vessel_type'', [''cargo'', ''tanker'', ''yacht''])]"
  let ?Y = "[(''vessel_type'', [''other'', ''tanker'', ''other''])]"
  let ?T = "[(''vessel_type'', example_column)]"
  have t: "Clamper_transform ?c0 ?X = Inr ?Y" by (simp add: clamp_column_def)
  from clamper_transform_idempotent_fit_transform_agrees[of ?c0 ?X] t
  have i: "Clamper_transform ?c0 ?Y = Inr ?Y" by blast
  have d: "distinct (map fst ?T)" by simp
  from clamper_transform_idempotent_fit_transform_agrees[of Clamper_init ?T] d
  have "Clamper_fit_transform Clamper_init ?T =
          (case Clamper_fit Clamper_init ?T of
             (Inl e, c') \<Rightarrow> (Inl e, c')
           | (Inr u, c') \<Rightarrow> (Clamper_transform c' ?T, c'))" by blast
  then have f: "Clamper_fit_transform Clamper_init ?T = (Clamper_transform ?c0 ?T, ?c0)"
    by (simp only: example_fit prod.case sum.case)
  from t i f show ?thesis by blast
qed




lemma get_values_to_keep_empty: "get_values_to_keep_from_value_counts [] = Inl ZeroDivisionError"
  by (simp add: get_values_to_keep_from_value_counts_def)

lemma set_distinct_values: "set (distinct_values col) = set col"
  by (induction col) auto

lemma value_counts_entries:
  "set (value_counts col) = (\<lambda>v. (v, count_list col v)) ` set col"
  by (simp add: value_counts_def set_distinct_values)

lemma value_counts_descending:
  "sorted (map (\<lambda>(v, c). - int c) (value_counts col))"
  unfolding value_counts_def by (rule sorted_sort_key)







end
